theory Spec2Isabelle
  imports Main
begin

section \<open>The version management script \<open>scripts/version.py\<close>\<close>

text \<open>
  The script reads and rewrites the version line of \<open>pyproject.toml\<close>, bumps semantic
  versions, creates and pushes git tags through \<open>subprocess.run\<close>, and formats the
  names of the container images.

  Modelling decisions, all of them about the Python runtime and not about the script:
  \<^item> Text is \<open>string\<close>: a list of characters with code points below 256. On these the
    class \<open>\d\<close> of \<open>re\<close> is exactly \<open>0-9\<close>.
  \<^item> The manifest is the text that \<open>f.read()\<close> returns and \<open>f.write()\<close> receives
    (text mode); \<open>None\<close> stands for a path that does not exist.
  \<^item> Python integers are unbounded (\<open>int\<close>); the interpreter's optional limit on the
    length of decimal conversions is taken as switched off.
  \<^item> An exception is a value of type \<open>py_error\<close>; a function that can raise returns
    \<open>py_error + 'a\<close>.
  \<^item> The git executable is a parameter: a function from the argument vector and the
    state of the outside world to a return code, the captured output and the next state
    of the world.
  \<^item> Left out: failures of the file system other than a manifest that does not exist, a
    git executable that cannot be started, and the usage errors of \<open>argparse\<close>, which end
    the run with status 2 before \<open>main\<close> acts.
\<close>

subsection \<open>Exceptions\<close>

datatype py_error =
    ValueError string
  | TemplateError
  | CalledProcessError "string list" int

text \<open>
  \<open>TemplateError\<close> stands for what the compiler of replacement templates of \<open>re\<close>
  raises (\<open>re.error\<close>, and \<open>IndexError\<close> for an unknown group name);
  \<open>CalledProcessError cmd returncode\<close> is what \<open>subprocess.run(cmd, check=True)\<close>
  raises when the command returns a code other than 0.
\<close>

text \<open>The two \<open>ValueError\<close>s the script raises, under the names the specification uses.\<close>

definition InvalidFormat :: "string \<Rightarrow> py_error" where
  "InvalidFormat version = ValueError (''Invalid version format: '' @ version)"


subsection \<open>Backtracking regular expression matching, as \<open>re\<close> does it\<close>

text \<open>
  A pattern is a function from the text at the current position to the list of ways it
  can match there, in the order in which the backtracking engine of \<open>re\<close> tries them;
  each way is the value matched (the text of a group) and the text that remains. The
  first element of the list whose continuation succeeds is the match \<open>re\<close> reports.
\<close>

type_synonym 'a matcher = "string \<Rightarrow> ('a \<times> string) list"

definition m_ret :: "'a \<Rightarrow> 'a matcher" where
  "m_ret a s = [(a, s)]"

definition m_then :: "'a matcher \<Rightarrow> ('a \<Rightarrow> 'b matcher) \<Rightarrow> 'b matcher" where
  "m_then p f s = concat (map (\<lambda>(a, r). f a r) (p s))"

text \<open>A literal text.\<close>

definition m_str :: "string \<Rightarrow> string matcher" where
  "m_str l s = (if take (length l) s = l then [(l, drop (length l) s)] else [])"

text \<open>
  \<open>C*\<close> for a character class \<open>C\<close>, greedy: the longest run first, then each shorter
  one, down to the empty match.
\<close>

fun m_star :: "(char \<Rightarrow> bool) \<Rightarrow> string matcher" where
  "m_star P [] = [([], [])]"
| "m_star P (c # cs) =
     (if P c then map (\<lambda>(m, r). (c # m, r)) (m_star P cs) else []) @ [([], c # cs)]"

text \<open>\<open>C+\<close>: as \<open>C*\<close>, without the empty match.\<close>

fun m_plus :: "(char \<Rightarrow> bool) \<Rightarrow> string matcher" where
  "m_plus P [] = []"
| "m_plus P (c # cs) = (if P c then map (\<lambda>(m, r). (c # m, r)) (m_star P cs) else [])"

text \<open>\<open>(?:p)?\<close>, greedy: \<open>p\<close> first, then the empty match.\<close>

definition m_opt :: "string matcher \<Rightarrow> string matcher" where
  "m_opt p s = p s @ [([], s)]"

text \<open>
  \<open>$\<close> without \<open>re.MULTILINE\<close>: at the end of the text, or just before a newline that
  is the last character of the text.
\<close>

definition m_eol :: "unit matcher" where
  "m_eol s = (if s = [] \<or> s = [CHR 0x0A] then [((), s)] else [])"

text \<open>The character classes of the three patterns of the script.\<close>

definition is_digit :: "char \<Rightarrow> bool" where
  "is_digit c = (48 \<le> (of_char c :: nat) \<and> (of_char c :: nat) \<le> 57)"

definition not_newline :: "char \<Rightarrow> bool" where
  "not_newline c = (c \<noteq> CHR 0x0A)"

definition not_quote :: "char \<Rightarrow> bool" where
  "not_quote c = (c \<noteq> CHR 0x22)"

text \<open>
  \<open>re.match(p, s)\<close>: the first way \<open>p\<close> matches at position 0, or \<open>None\<close>. At
  position 0 the anchor \<open>^\<close> always holds, so the patterns below leave it out.
\<close>

definition re_match :: "'a matcher \<Rightarrow> string \<Rightarrow> 'a option" where
  "re_match p s = (case p s of [] \<Rightarrow> None | (a, r) # _ \<Rightarrow> Some a)"


subsection \<open>\<open>int()\<close> and \<open>str()\<close> on decimal text\<close>

definition digit_val :: "char \<Rightarrow> int" where
  "digit_val c = int (of_char c) - 48"

text \<open>\<open>int(s)\<close> for a text \<open>s\<close> of decimal digits, the only texts the script passes.\<close>

definition py_int :: "string \<Rightarrow> int" where
  "py_int s = foldl (\<lambda>a c. 10 * a + digit_val c) 0 s"




subsection \<open>\<open>parse_version\<close> and \<open>bump_version\<close>\<close>

text \<open>The pattern \<open>^(\d+)\.(\d+)\.(\d+)(?:-.*)?$\<close>; its value is the three groups.\<close>

definition semver_re :: "(string \<times> string \<times> string) matcher" where
  "semver_re =
     m_then (m_plus is_digit) (\<lambda>g1.
     m_then (m_str ''.'') (\<lambda>_.
     m_then (m_plus is_digit) (\<lambda>g2.
     m_then (m_str ''.'') (\<lambda>_.
     m_then (m_plus is_digit) (\<lambda>g3.
     m_then (m_opt (m_then (m_str ''-'') (\<lambda>_. m_star not_newline))) (\<lambda>_.
     m_then m_eol (\<lambda>_.
     m_ret (g1, g2, g3))))))))"

definition parse_version :: "string \<Rightarrow> py_error + (int \<times> int \<times> int)" where
  "parse_version version =
     (case re_match semver_re version of
        None \<Rightarrow> Inl (InvalidFormat version)
      | Some (g1, g2, g3) \<Rightarrow> Inr (py_int g1, py_int g2, py_int g3))"


subsection \<open>Replacement templates and \<open>re.sub\<close>\<close>

text \<open>
  \<open>re.sub(pattern, repl, string)\<close> with a text \<open>repl\<close> compiles \<open>repl\<close> as a template
  before it looks for any match: backslash escapes are processed, and a bad escape
  raises even when the pattern matches nowhere. A compiled template is a list of literal
  characters and references to the whole match. The patterns of the script have no
  group that a template could refer to, so every reference to a group other than
  \<open>\g<0>\<close> is an error.
\<close>

datatype titem = TLit char | TWhole

definition is_octdigit :: "char \<Rightarrow> bool" where
  "is_octdigit c = (48 \<le> (of_char c :: nat) \<and> (of_char c :: nat) \<le> 55)"

definition is_ascii_letter :: "char \<Rightarrow> bool" where
  "is_ascii_letter c =
     ((65 \<le> (of_char c :: nat) \<and> (of_char c :: nat) \<le> 90) \<or>
      (97 \<le> (of_char c :: nat) \<and> (of_char c :: nat) \<le> 122))"

definition oct_val :: "string \<Rightarrow> nat" where
  "oct_val ds = foldl (\<lambda>a c. 8 * a + (of_char c - 48)) 0 ds"

text \<open>The table \<open>ESCAPES\<close> of the template compiler.\<close>

definition escape_char :: "char \<Rightarrow> char option" where
  "escape_char c =
     (if c = CHR ''a'' then Some (CHR 0x07)
      else if c = CHR ''b'' then Some (CHR 0x08)
      else if c = CHR ''f'' then Some (CHR 0x0C)
      else if c = CHR ''n'' then Some (CHR 0x0A)
      else if c = CHR ''r'' then Some (CHR 0x0D)
      else if c = CHR ''t'' then Some (CHR 0x09)
      else if c = CHR ''v'' then Some (CHR 0x0B)
      else if c = CHR 0x5C then Some (CHR 0x5C)
      else None)"

text \<open>
  What follows a backslash, given as the character after it and the rest of the
  template. The result is the items the escape stands for and the text after it.
  \<^item> \<open>\g<name>\<close>: the pattern has no named group and no numbered group but 0, so only
    a name made of zeros refers to something. (Up to CPython 3.11 a name that
    \<open>int()\<close> reads as 0, such as \<open>+0\<close>, is accepted too, with a deprecation warning;
    from 3.12 on it is an error, which is what the model takes.)
  \<^item> \<open>\0\<close>, \<open>\0o\<close>, \<open>\0oo\<close>: an octal escape of up to three digits.
  \<^item> \<open>\d\<close>, \<open>\dd\<close>: a reference to a group that does not exist, except three octal
    digits, which are an octal escape (an error above \<open>0o377\<close>).
  \<^item> a letter of \<open>ESCAPES\<close>: the control character; any other ASCII letter: an error;
    any other character: the backslash and the character stay as they are.
\<close>

definition template_escape :: "char \<Rightarrow> string \<Rightarrow> py_error + (titem list \<times> string)" where
  "template_escape c rest =
     (if c = CHR ''g'' then
        (case rest of
           [] \<Rightarrow> Inl TemplateError
         | b # rest' \<Rightarrow>
             if b \<noteq> CHR ''<'' then Inl TemplateError
             else
               let name = takeWhile (\<lambda>x. x \<noteq> CHR ''>'') rest';
                   after = dropWhile (\<lambda>x. x \<noteq> CHR ''>'') rest'
               in if after = [] \<or> name = [] then Inl TemplateError
                  else if \<forall>x\<in>set name. x = CHR ''0'' then Inr ([TWhole], tl after)
                  else Inl TemplateError)
      else if c = CHR ''0'' then
        (let ds = takeWhile is_octdigit (take 2 rest)
         in Inr ([TLit (char_of (oct_val ds mod 256))], drop (length ds) rest))
      else if is_digit c then
        (case rest of
           d2 # d3 # rest' \<Rightarrow>
             if is_octdigit c \<and> is_octdigit d2 \<and> is_octdigit d3 then
               (if oct_val [c, d2, d3] > 255 then Inl TemplateError
                else Inr ([TLit (char_of (oct_val [c, d2, d3]))], rest'))
             else Inl TemplateError
         | _ \<Rightarrow> Inl TemplateError)
      else
        (case escape_char c of
           Some e \<Rightarrow> Inr ([TLit e], rest)
         | None \<Rightarrow>
             if is_ascii_letter c then Inl TemplateError
             else Inr ([TLit (CHR 0x5C), TLit c], rest)))"

lemma template_escape_shorter:
  assumes "template_escape c rest = Inr (items, rest')"
  shows "length rest' \<le> length rest"
proof -
  consider (g) "c = CHR ''g''" | (z) "c \<noteq> CHR ''g''" "c = CHR ''0''"
    | (d) "c \<noteq> CHR ''g''" "c \<noteq> CHR ''0''" "is_digit c"
    | (o) "c \<noteq> CHR ''g''" "c \<noteq> CHR ''0''" "\<not> is_digit c"
    by blast
  then show ?thesis
  proof cases
    case g
    with assms obtain b r where r: "rest = b # r"
      and "rest' = tl (dropWhile (\<lambda>x. x \<noteq> CHR ''>'') r)"
      by (simp add: template_escape_def Let_def split: list.splits if_splits)
    moreover have "length (tl (dropWhile (\<lambda>x. x \<noteq> CHR ''>'') r)) \<le> length r"
      using length_dropWhile_le[of "\<lambda>x. x \<noteq> CHR ''>''" r] by simp
    ultimately show ?thesis by simp
  next
    case z
    with assms show ?thesis by (auto simp: template_escape_def Let_def)
  next
    case d
    with assms show ?thesis
      by (simp add: template_escape_def split: list.splits if_splits)
  next
    case o
    with assms show ?thesis
      by (simp add: template_escape_def split: option.splits if_splits)
  qed
qed

function parse_template :: "string \<Rightarrow> py_error + titem list" where
  "parse_template [] = Inr []"
| "parse_template (c # cs) =
     (if c \<noteq> CHR 0x5C then
        (case parse_template cs of Inl e \<Rightarrow> Inl e | Inr items \<Rightarrow> Inr (TLit c # items))
      else
        (case cs of
           [] \<Rightarrow> Inl TemplateError
         | e # rest \<Rightarrow>
             (case template_escape e rest of
                Inl err \<Rightarrow> Inl err
              | Inr (first, rest') \<Rightarrow>
                  (case parse_template rest' of
                     Inl err \<Rightarrow> Inl err
                   | Inr items \<Rightarrow> Inr (first @ items)))))"
  by pat_completeness auto
termination
proof (relation "measure length")
  show "wf (measure length)" by simp
next
  fix c :: char and cs :: string
  show "(cs, c # cs) \<in> measure length" by simp
next
  fix c e :: char and cs rest rest' :: string and b first
  assume "cs = e # rest" "template_escape e rest = Inr b" "(first, rest') = b"
  then have "length rest' \<le> length rest" by (auto dest: template_escape_shorter)
  with \<open>cs = e # rest\<close> show "(rest', c # cs) \<in> measure length" by simp
qed

text \<open>The text a compiled template stands for at a match whose text is \<open>m\<close>.\<close>

definition expand_template :: "titem list \<Rightarrow> string \<Rightarrow> string" where
  "expand_template items m = concat (map (\<lambda>i. case i of TLit c \<Rightarrow> [c] | TWhole \<Rightarrow> m) items)"

text \<open>
  The substitution loop of \<open>re.sub\<close> with no \<open>count\<close>: every non-overlapping match,
  from left to right, is replaced. A match that consumes text is replaced and the search
  goes on behind it; where the pattern matches the empty text (the patterns of the
  script never do) the replacement is inserted and one character is copied.
\<close>

function re_sub_loop :: "'a matcher \<Rightarrow> (string \<Rightarrow> string) \<Rightarrow> string \<Rightarrow> string" where
  "re_sub_loop p repl s =
     (case p s of
        [] \<Rightarrow> (case s of [] \<Rightarrow> [] | c # cs \<Rightarrow> c # re_sub_loop p repl cs)
      | (a, r) # _ \<Rightarrow>
          if length r < length s then
            repl (take (length s - length r) s) @ re_sub_loop p repl r
          else
            repl [] @ (case s of [] \<Rightarrow> [] | c # cs \<Rightarrow> c # re_sub_loop p repl cs))"
  by pat_completeness auto
termination
  by (relation "measure (\<lambda>(p, repl, s). length s)") auto

definition re_sub :: "'a matcher \<Rightarrow> string \<Rightarrow> string \<Rightarrow> py_error + string" where
  "re_sub p repl s =
     (case parse_template repl of
        Inl e \<Rightarrow> Inl e
      | Inr items \<Rightarrow> Inr (re_sub_loop p (expand_template items) s))"

subsection \<open>The state of a run\<close>

text \<open>
  What the script prints: a line of text, the line of an \<open>except\<close> branch (its prefix
  and the exception, which \<open>print\<close> renders), and the \<open>json.dumps\<close> of a dictionary.
\<close>

datatype json = JStr string | JObj "(string \<times> json) list"

datatype out = Line string | ErrLine string py_error | JsonDump json

text \<open>
  \<^item> \<open>manifest\<close>: the text of \<open>PROJECT_ROOT / "pyproject.toml"\<close>, \<open>None\<close> when the path
    does not exist;
  \<^item> \<open>writes\<close>: every text the script has written to that file, oldest first;
  \<^item> \<open>environ\<close>: \<open>os.environ\<close>;
  \<^item> \<open>world\<close>: whatever git acts on (the repository, the remote);
  \<^item> \<open>stdout\<close>: what the script has printed, oldest first;
  \<^item> \<open>calls\<close>: the argument vector and the return code of every \<open>subprocess.run\<close>,
    oldest first.
\<close>

record 'w state =
  manifest :: "string option"
  writes :: "string list"
  environ :: "string \<rightharpoonup> string"
  world :: 'w
  stdout :: "out list"
  calls :: "(string list \<times> int) list"

text \<open>
  An external command: from its argument vector and the world to its return code, its
  standard output and the world it leaves.
\<close>

type_synonym 'w tool = "string list \<Rightarrow> 'w \<Rightarrow> int \<times> string \<times> 'w"

text \<open>How a call ends: it returns, it raises, or it calls \<open>sys.exit\<close>.\<close>

datatype 'a result = Returned 'a | Raised py_error | SysExit int

definition print :: "out \<Rightarrow> 'w state \<Rightarrow> 'w state" where
  "print l st = st\<lparr>stdout := stdout st @ [l]\<rparr>"

text \<open>\<open>subprocess.run(argv, check=True)\<close>; the result is the captured standard output.\<close>

definition subprocess_run ::
  "'w tool \<Rightarrow> string list \<Rightarrow> 'w state \<Rightarrow> (py_error + string) \<times> 'w state" where
  "subprocess_run tool argv st =
     (case tool argv (world st) of
        (returncode, output, w) \<Rightarrow>
          let st' = st\<lparr>world := w, calls := calls st @ [(argv, returncode)]\<rparr>
          in if returncode \<noteq> 0 then (Inl (CalledProcessError argv returncode), st')
             else (Inr output, st'))"

subsection \<open>The manifest: \<open>get_current_version\<close> and \<open>update_version_file\<close>\<close>

definition version_key :: string where
  \<open>version_key = ''version = "''\<close>

definition dquote :: string where
  \<open>dquote = ''"''\<close>

text \<open>The pattern \<open>version = "([^"]+)"\<close>; its value is the group.\<close>

definition version_re :: "string matcher" where
  "version_re =
     m_then (m_str version_key) (\<lambda>_.
     m_then (m_plus not_quote) (\<lambda>g.
     m_then (m_str dquote) (\<lambda>_.
     m_ret g)))"


text \<open>
  The pattern of \<open>update_version_file\<close> is \<open>version = "[^"]+"\<close>, the same without the
  group; a group changes nothing in what is matched, so \<open>version_re\<close> serves for both.
\<close>

definition update_version_file :: "string \<Rightarrow> 'w state \<Rightarrow> unit result \<times> 'w state" where
  "update_version_file new_version st =
     (case manifest st of
        None \<Rightarrow>
          (Returned (), print (Line ''Warning: pyproject.toml not found, skipping version update'') st)
      | Some content \<Rightarrow>
          (case re_sub version_re (version_key @ new_version @ dquote) content of
             Inl e \<Rightarrow> (Raised e, st)
           | Inr updated_content \<Rightarrow>
               (Returned (),
                print (Line (''Updated version in pyproject.toml to '' @ new_version))
                  (st\<lparr>manifest := Some updated_content,
                      writes := writes st @ [updated_content]\<rparr>))))"

subsection \<open>Tags: \<open>create_git_tag\<close> and \<open>push_tag\<close>\<close>

text \<open>The characters \<open>str.strip()\<close> removes, among the code points below 256.\<close>

definition is_space :: "char \<Rightarrow> bool" where
  "is_space c =
     (let n = (of_char c :: nat)
      in (9 \<le> n \<and> n \<le> 13) \<or> (28 \<le> n \<and> n \<le> 32) \<or> n = 133 \<or> n = 160)"

definition strip :: "string \<Rightarrow> string" where
  "strip s = rev (dropWhile is_space (rev (dropWhile is_space s)))"

text \<open>\<open>message or f"Release version {version}"\<close>: the empty text counts as absent.\<close>

definition tag_message_of :: "string \<Rightarrow> string option \<Rightarrow> string" where
  "tag_message_of version message =
     (case message of
        None \<Rightarrow> ''Release version '' @ version
      | Some m \<Rightarrow> if m = [] then ''Release version '' @ version else m)"

definition create_git_tag ::
  "'w tool \<Rightarrow> string \<Rightarrow> string option \<Rightarrow> 'w state \<Rightarrow> unit result \<times> 'w state" where
  "create_git_tag git version message st =
     (let tag_name = ''v'' @ version;
          tag_message = tag_message_of version message
      in case subprocess_run git [''git'', ''tag'', ''-l'', tag_name] st of
           (Inl e, st1) \<Rightarrow> (SysExit 1, print (ErrLine ''Error creating git tag: '' e) st1)
         | (Inr output, st1) \<Rightarrow>
             if strip output \<noteq> [] then
               (Returned (), print (Line (''Tag '' @ tag_name @ '' already exists'')) st1)
             else
               (case subprocess_run git [''git'', ''tag'', ''-a'', tag_name, ''-m'', tag_message] st1 of
                  (Inl e, st2) \<Rightarrow> (SysExit 1, print (ErrLine ''Error creating git tag: '' e) st2)
                | (Inr _, st2) \<Rightarrow> (Returned (), print (Line (''Created tag '' @ tag_name)) st2)))"


subsection \<open>\<open>get_docker_images_info\<close>\<close>

text \<open>The dictionary is an association list in the order of the dictionary display.\<close>

definition get_docker_images_info :: "(string \<rightharpoonup> string) \<Rightarrow> string \<Rightarrow> json" where
  "get_docker_images_info env version =
     (let registry = ''ghcr.io'';
          repo_name = (case env ''GITHUB_REPOSITORY'' of None \<Rightarrow> ''sip-ai-agent'' | Some r \<Rightarrow> r)
      in JObj
           [(''registry'', JStr registry),
            (''repository'', JStr repo_name),
            (''version'', JStr version),
            (''images'',
              JObj
                [(''sip_agent'', JStr (registry @ ''/'' @ repo_name @ '':'' @ version)),
                 (''sip_agent_latest'', JStr (registry @ ''/'' @ repo_name @ '':latest'')),
                 (''web_ui'', JStr (registry @ ''/'' @ repo_name @ ''-web:'' @ version)),
                 (''web_ui_latest'', JStr (registry @ ''/'' @ repo_name @ ''-web:latest''))])])"

subsection \<open>\<open>main\<close>\<close>

text \<open>
  The namespace \<open>parser.parse_args()\<close> returns. The \<open>choices\<close> of \<open>action\<close> and of
  \<open>--type\<close> are the constructors of two datatypes: \<open>argparse\<close> leaves with a usage error
  before \<open>main\<close> sees any other value.
\<close>

datatype action = Current | Bump | Tag | Info






subsection \<open>The specification's reading of the version pattern\<close>

text \<open>
  The specification describes the texts \<open>parse_version\<close> accepts by the pattern
  \<open>^(\d+)\.(\d+)\.(\d+)(-.*)?$\<close>. The definitions of this subsection spell that pattern
  out as a decomposition of the text, independently of the matcher above; they are what
  the matcher is compared with. The pattern is read as \<open>re\<close> reads it: \<open>.\<close> is any
  character but a newline, and \<open>$\<close> also holds just before a newline that ends the text.
\<close>

definition digits :: "string \<Rightarrow> bool" where
  "digits d \<longleftrightarrow> d \<noteq> [] \<and> (\<forall>c\<in>set d. is_digit c)"

definition spec_suffix :: "string \<Rightarrow> bool" where
  "spec_suffix s = (case s of [] \<Rightarrow> True | c # t \<Rightarrow> c = CHR ''-'' \<and> CHR 0x0A \<notin> set t)"

definition spec_semver :: "string \<Rightarrow> bool" where
  "spec_semver v \<longleftrightarrow>
     (\<exists>d1 d2 d3 suffix nl.
        v = d1 @ ''.'' @ d2 @ ''.'' @ d3 @ suffix @ nl \<and>
        digits d1 \<and> digits d2 \<and> digits d3 \<and> spec_suffix suffix \<and>
        (nl = [] \<or> nl = [CHR 0x0A]))"




text \<open>The end of \<open>semver_re\<close>, behind the third group; a name for it, used in the proofs.\<close>

definition semver_tail :: "'a \<Rightarrow> 'a matcher" where
  "semver_tail g =
     m_then (m_opt (m_then (m_str ''-'') (\<lambda>_. m_star not_newline))) (\<lambda>_.
     m_then m_eol (\<lambda>_. m_ret g))"

subsection \<open>Notions the statements about git use\<close>

text \<open>
  The commands a call has added to the trace; the commands that create a tag; a world
  in which the listing of a tag does not come back successful and blank; and what the
  second half of the claim about idempotence needs of git: a tag that was created, or
  listed, is listed afterwards. \<open>create_git_tag_twice\<close> is two calls of
  \<open>create_git_tag\<close> in succession, the second of which runs only when the first returns.
\<close>

definition new_calls :: "'w state \<Rightarrow> 'w state \<Rightarrow> (string list \<times> int) list" where
  "new_calls st st' = drop (length (calls st)) (calls st')"

definition is_create :: "string list \<times> int \<Rightarrow> bool" where
  "is_create c = (take 3 (fst c) = [''git'', ''tag'', ''-a''])"

definition reports_tag :: "'w tool \<Rightarrow> string \<Rightarrow> 'w \<Rightarrow> bool" where
  "reports_tag git tag_name w =
     (case git [''git'', ''tag'', ''-l'', tag_name] w of
        (returncode, output, _) \<Rightarrow> returncode \<noteq> 0 \<or> strip output \<noteq> [])"

definition git_keeps_tags :: "'w tool \<Rightarrow> string \<Rightarrow> bool" where
  "git_keeps_tags git tag_name \<longleftrightarrow>
     (\<forall>w message rc out w'.
        git [''git'', ''tag'', ''-a'', tag_name, ''-m'', message] w = (rc, out, w') \<and> rc = 0 \<longrightarrow>
        reports_tag git tag_name w') \<and>
     (\<forall>w rc out w'.
        git [''git'', ''tag'', ''-l'', tag_name] w = (rc, out, w') \<and> rc = 0 \<and> strip out \<noteq> [] \<longrightarrow>
        reports_tag git tag_name w')"

definition create_git_tag_twice ::
  "'w tool \<Rightarrow> string \<Rightarrow> string option \<Rightarrow> string option \<Rightarrow> 'w state \<Rightarrow> unit result \<times> 'w state" where
  "create_git_tag_twice git version message message' st =
     (case create_git_tag git version message st of
        (Returned _, st1) \<Rightarrow> create_git_tag git version message' st1
      | (r, st1) \<Rightarrow> (r, st1))"

text \<open>
  A small git for the concrete runs below. Its world is the list of the tags of the
  repository and whether the remote can be reached. Listing prints the tag if it is
  there; creating fails on a tag that is there; pushing fails when the remote cannot be
  reached.
\<close>

definition toy_git :: "(string list \<times> bool) tool" where
  "toy_git argv w =
     (case w of (tags, remote) \<Rightarrow>
        (case argv of
           [g, t, opt, name] \<Rightarrow>
             if opt = ''-l'' then (0, if name \<in> set tags then name @ [CHR 0x0A] else [], w)
             else if remote then (0, [], w) else (1, [], w)
         | [g, t, opt, name, m, msg] \<Rightarrow>
             if name \<in> set tags then (128, [], w) else (0, [], (tags @ [name], remote))
         | _ \<Rightarrow> (129, [], w)))"

section \<open>Properties\<close>

subsection \<open>The matcher\<close>

lemma m_then_Nil: "p s = [] \<Longrightarrow> m_then p f s = []"
  by (simp add: m_then_def)

lemma set_m_then:
  "x \<in> set (m_then p f s) \<longleftrightarrow> (\<exists>a r. (a, r) \<in> set (p s) \<and> x \<in> set (f a r))"
  by (auto simp: m_then_def)

lemma m_star_then:
  assumes "\<forall>c\<in>set ds. P c" and "rest = [] \<or> \<not> P (hd rest)"
    and "\<And>m c r. P c \<Longrightarrow> f m (c # r) = []"
  shows "m_then (m_star P) f (ds @ rest) = f ds rest"
  using assms
proof (induction ds arbitrary: f)
  case Nil
  then show ?case by (cases rest) (auto simp: m_then_def)
next
  case (Cons d ds)
  have "m_then (m_star P) f ((d # ds) @ rest) =
        m_then (m_star P) (\<lambda>m. f (d # m)) (ds @ rest) @ f [] (d # ds @ rest)"
    using Cons.prems(1) by (simp add: m_then_def map_concat comp_def case_prod_unfold)
  also have "f [] (d # ds @ rest) = []"
    using Cons.prems by simp
  also have "m_then (m_star P) (\<lambda>m. f (d # m)) (ds @ rest) = f (d # ds) rest"
    using Cons.prems by (intro Cons.IH) auto
  finally show ?case by simp
qed

lemma m_plus_then:
  assumes "ds \<noteq> []" and "\<forall>c\<in>set ds. P c" and "rest = [] \<or> \<not> P (hd rest)"
    and "\<And>m c r. P c \<Longrightarrow> f m (c # r) = []"
  shows "m_then (m_plus P) f (ds @ rest) = f ds rest"
proof (cases ds)
  case Nil
  with assms(1) show ?thesis by simp
next
  case (Cons d ds')
  have "m_then (m_plus P) f (ds @ rest) = m_then (m_star P) (\<lambda>m. f (d # m)) (ds' @ rest)"
    using assms(2) Cons by (simp add: m_then_def comp_def case_prod_unfold)
  also have "\<dots> = f (d # ds') rest"
    using assms Cons by (intro m_star_then) auto
  finally show ?thesis using Cons by simp
qed

lemma m_star_sound: "(m, r) \<in> set (m_star P s) \<Longrightarrow> s = m @ r \<and> (\<forall>c\<in>set m. P c)"
  by (induction s arbitrary: m) (auto split: if_splits)

lemma m_plus_sound:
  assumes "(m, r) \<in> set (m_plus P s)"
  shows "s = m @ r \<and> m \<noteq> [] \<and> (\<forall>c\<in>set m. P c)"
proof (cases s)
  case Nil
  with assms show ?thesis by simp
next
  case (Cons c cs)
  with assms obtain m' where "P c" "m = c # m'" "(m', r) \<in> set (m_star P cs)"
    by (auto split: if_splits)
  with m_star_sound[of m' r P cs] Cons show ?thesis by auto
qed

lemma m_star_complete: "\<forall>c\<in>set m. P c \<Longrightarrow> (m, r) \<in> set (m_star P (m @ r))"
  by (induction m) (auto, cases r, auto)

lemma m_str_sound: "(m, r) \<in> set (m_str l s) \<Longrightarrow> m = l \<and> s = l @ r"
  by (auto simp: m_str_def split: if_splits) (metis append_take_drop_id)

lemma m_then_m_str: "m_then (m_str l) f (l @ r) = f l r"
  by (simp add: m_then_def m_str_def)

lemma m_str_dot_digit: "is_digit c \<Longrightarrow> m_str ''.'' (c # r) = []"
  by (auto simp: m_str_def is_digit_def)

lemma spec_suffix_nl_cases:
  assumes "spec_suffix suffix" "nl = [] \<or> nl = [CHR 0x0A]"
  shows "suffix @ nl = [] \<or> \<not> is_digit (hd (suffix @ nl))"
  using assms by (cases suffix) (auto simp: spec_suffix_def is_digit_def)

lemma semver_tail_digit: "is_digit c \<Longrightarrow> semver_tail g (c # r) = []"
  by (auto simp: semver_tail_def m_then_def m_opt_def m_str_def m_eol_def is_digit_def)

lemma semver_tail_fst: "x \<in> set (semver_tail g s) \<Longrightarrow> fst x = g"
  by (auto simp: semver_tail_def set_m_then m_ret_def)

lemma semver_tail_sound:
  assumes "(x, r) \<in> set (semver_tail g s)"
  shows "\<exists>suffix. s = suffix @ r \<and> spec_suffix suffix \<and> (r = [] \<or> r = [CHR 0x0A])"
proof -
  from assms obtain m r1 where
    m: "(m, r1) \<in> set (m_opt (m_then (m_str ''-'') (\<lambda>_. m_star not_newline)) s)"
    and e: "(x, r) \<in> set (m_then m_eol (\<lambda>_. m_ret g) r1)"
    unfolding semver_tail_def set_m_then by blast
  from e have r: "r = r1" "r = [] \<or> r = [CHR 0x0A]"
    by (auto simp: set_m_then m_eol_def m_ret_def split: if_splits)
  from m have "(m = [] \<and> r1 = s) \<or> (m, r1) \<in> set (m_then (m_str ''-'') (\<lambda>_. m_star not_newline) s)"
    by (auto simp: m_opt_def)
  then show ?thesis
  proof
    assume "m = [] \<and> r1 = s"
    with r show ?thesis by (intro exI[of _ "[]"]) (simp add: spec_suffix_def)
  next
    assume "(m, r1) \<in> set (m_then (m_str ''-'') (\<lambda>_. m_star not_newline) s)"
    then obtain a r2 where a: "(a, r2) \<in> set (m_str ''-'' s)" and b: "(m, r1) \<in> set (m_star not_newline r2)"
      unfolding set_m_then by blast
    from m_str_sound[OF a] m_star_sound[OF b] have "s = (CHR ''-'' # m) @ r1" "\<forall>c\<in>set m. not_newline c"
      by auto
    with r show ?thesis
      by (intro exI[of _ "CHR ''-'' # m"]) (auto simp: spec_suffix_def not_newline_def)
  qed
qed

lemma semver_tail_complete:
  assumes "spec_suffix suffix" "nl = [] \<or> nl = [CHR 0x0A]"
  shows "(g, nl) \<in> set (semver_tail g (suffix @ nl))"
proof (cases suffix)
  case Nil
  with assms(2) show ?thesis
    by (auto simp: semver_tail_def set_m_then m_opt_def m_eol_def m_ret_def)
next
  case (Cons c t)
  with assms(1) have c: "c = CHR ''-''" and t: "\<forall>x\<in>set t. not_newline x"
    by (auto simp: spec_suffix_def not_newline_def)
  have "(t, nl) \<in> set (m_star not_newline (t @ nl))" using t by (rule m_star_complete)
  then have "(t, nl) \<in> set (m_then (m_str ''-'') (\<lambda>_. m_star not_newline) (suffix @ nl))"
    using Cons c by (auto simp: set_m_then m_str_def)
  then have "(t, nl) \<in> set (m_opt (m_then (m_str ''-'') (\<lambda>_. m_star not_newline)) (suffix @ nl))"
    by (simp add: m_opt_def)
  moreover have "(g, nl) \<in> set (m_then m_eol (\<lambda>_. m_ret g) nl)"
    using assms(2) by (auto simp: set_m_then m_eol_def m_ret_def)
  ultimately show ?thesis unfolding semver_tail_def set_m_then by blast
qed

lemma semver_re_tail:
  "semver_re =
     m_then (m_plus is_digit) (\<lambda>g1.
     m_then (m_str ''.'') (\<lambda>_.
     m_then (m_plus is_digit) (\<lambda>g2.
     m_then (m_str ''.'') (\<lambda>_.
     m_then (m_plus is_digit) (\<lambda>g3. semver_tail (g1, g2, g3))))))"
  by (simp add: semver_re_def semver_tail_def)

lemma semver_re_complete:
  assumes "digits d1" "digits d2" "digits d3" "spec_suffix suffix" "nl = [] \<or> nl = [CHR 0x0A]"
  shows "semver_re (d1 @ ''.'' @ d2 @ ''.'' @ d3 @ suffix @ nl) =
         semver_tail (d1, d2, d3) (suffix @ nl)"
proof -
  have dot: "\<not> is_digit CHR ''.''" by (simp add: is_digit_def)
  have 3: "m_then (m_plus is_digit) (\<lambda>g3. semver_tail (g1, g2, g3)) (d3 @ (suffix @ nl)) =
        semver_tail (g1, g2, d3) (suffix @ nl)" for g1 g2 :: string
    using assms(3) spec_suffix_nl_cases[OF assms(4,5)]
    by (intro m_plus_then) (auto simp: digits_def semver_tail_digit)
  have 2: "m_then (m_plus is_digit) (\<lambda>g2. m_then (m_str ''.'') (\<lambda>_.
             m_then (m_plus is_digit) (\<lambda>g3. semver_tail (g1, g2, g3))))
             (d2 @ (''.'' @ d3 @ suffix @ nl)) =
        semver_tail (g1, d2, d3) (suffix @ nl)" for g1 :: string
  proof -
    have "m_then (m_plus is_digit) (\<lambda>g2. m_then (m_str ''.'') (\<lambda>_.
             m_then (m_plus is_digit) (\<lambda>g3. semver_tail (g1, g2, g3))))
             (d2 @ (''.'' @ d3 @ suffix @ nl)) =
          m_then (m_str ''.'') (\<lambda>_. m_then (m_plus is_digit) (\<lambda>g3. semver_tail (g1, d2, g3)))
             (''.'' @ d3 @ suffix @ nl)"
      using assms(2) dot
      by (intro m_plus_then) (auto simp: digits_def m_then_Nil m_str_dot_digit)
    also have "\<dots> = m_then (m_plus is_digit) (\<lambda>g3. semver_tail (g1, d2, g3)) (d3 @ (suffix @ nl))"
      by (rule m_then_m_str)
    finally show ?thesis using 3 by simp
  qed
  have "semver_re (d1 @ (''.'' @ d2 @ ''.'' @ d3 @ suffix @ nl)) =
        m_then (m_str ''.'') (\<lambda>_. m_then (m_plus is_digit) (\<lambda>g2. m_then (m_str ''.'') (\<lambda>_.
             m_then (m_plus is_digit) (\<lambda>g3. semver_tail (d1, g2, g3)))))
          (''.'' @ d2 @ ''.'' @ d3 @ suffix @ nl)"
    unfolding semver_re_tail using assms(1) dot
    by (intro m_plus_then) (auto simp: digits_def m_then_Nil m_str_dot_digit)
  also have "\<dots> = m_then (m_plus is_digit) (\<lambda>g2. m_then (m_str ''.'') (\<lambda>_.
             m_then (m_plus is_digit) (\<lambda>g3. semver_tail (d1, g2, g3))))
             (d2 @ (''.'' @ d3 @ suffix @ nl))"
    by (rule m_then_m_str)
  finally show ?thesis using 2 by simp
qed

lemma re_match_semver:
  assumes "digits d1" "digits d2" "digits d3" "spec_suffix suffix" "nl = [] \<or> nl = [CHR 0x0A]"
  shows "re_match semver_re (d1 @ ''.'' @ d2 @ ''.'' @ d3 @ suffix @ nl) = Some (d1, d2, d3)"
proof -
  let ?l = "semver_tail (d1, d2, d3) (suffix @ nl)"
  have "?l \<noteq> []" using semver_tail_complete[OF assms(4,5), of "(d1, d2, d3)"] by auto
  then obtain x xs where l: "?l = x # xs" by (cases ?l) auto
  then have "fst x = (d1, d2, d3)" using semver_tail_fst[of x "(d1, d2, d3)" "suffix @ nl"] by simp
  with l show ?thesis
    unfolding re_match_def semver_re_complete[OF assms] by (cases x) simp
qed

lemma semver_re_sound:
  assumes "((g1, g2, g3), r) \<in> set (semver_re v)"
  shows "\<exists>suffix. v = g1 @ ''.'' @ g2 @ ''.'' @ g3 @ suffix @ r \<and> digits g1 \<and> digits g2 \<and>
           digits g3 \<and> spec_suffix suffix \<and> (r = [] \<or> r = [CHR 0x0A])"
proof -
  from assms obtain a1 r1 a2 r2 a3 r3 a4 r4 a5 r5 where
    1: "(a1, r1) \<in> set (m_plus is_digit v)" and
    2: "(a2, r2) \<in> set (m_str ''.'' r1)" and
    3: "(a3, r3) \<in> set (m_plus is_digit r2)" and
    4: "(a4, r4) \<in> set (m_str ''.'' r3)" and
    5: "(a5, r5) \<in> set (m_plus is_digit r4)" and
    6: "((g1, g2, g3), r) \<in> set (semver_tail (a1, a3, a5) r5)"
    unfolding semver_re_tail set_m_then by blast
  from semver_tail_fst[OF 6] have g: "g1 = a1" "g2 = a3" "g3 = a5" by auto
  from semver_tail_sound[OF 6] obtain suffix where
    s: "r5 = suffix @ r" "spec_suffix suffix" "r = [] \<or> r = [CHR 0x0A]" by blast
  from m_plus_sound[OF 1] m_str_sound[OF 2] m_plus_sound[OF 3] m_str_sound[OF 4] m_plus_sound[OF 5]
  show ?thesis using g s by (intro exI[of _ suffix]) (auto simp: digits_def)
qed

lemma parse_version_complete:
  assumes "digits d1" "digits d2" "digits d3" "spec_suffix suffix" "nl = [] \<or> nl = [CHR 0x0A]"
  shows "parse_version (d1 @ ''.'' @ d2 @ ''.'' @ d3 @ suffix @ nl) =
         Inr (py_int d1, py_int d2, py_int d3)"
  using re_match_semver[OF assms] by (simp add: parse_version_def)

lemma parse_version_sound:
  assumes "parse_version v = Inr (a, b, c)"
  shows "\<exists>d1 d2 d3 suffix nl. v = d1 @ ''.'' @ d2 @ ''.'' @ d3 @ suffix @ nl \<and>
           digits d1 \<and> digits d2 \<and> digits d3 \<and> spec_suffix suffix \<and>
           (nl = [] \<or> nl = [CHR 0x0A]) \<and> a = py_int d1 \<and> b = py_int d2 \<and> c = py_int d3"
proof -
  from assms obtain g1 g2 g3 r rest where l: "semver_re v = ((g1, g2, g3), r) # rest"
    and abc: "a = py_int g1" "b = py_int g2" "c = py_int g3"
    by (auto simp: parse_version_def re_match_def split: list.splits option.splits)
  then have "((g1, g2, g3), r) \<in> set (semver_re v)" by simp
  from semver_re_sound[OF this] abc show ?thesis by blast
qed

lemma parse_version_Inl: "parse_version v = Inl e \<Longrightarrow> e = InvalidFormat v"
  by (auto simp: parse_version_def split: option.splits)

subsection \<open>Decimal text\<close>













subsection \<open>Bumping\<close>




subsection \<open>Parsing against the pattern\<close>

lemma spec_semver_accepted: "spec_semver v \<Longrightarrow> \<exists>t. parse_version v = Inr t"
  unfolding spec_semver_def using parse_version_complete by blast

text \<open>
  What reading \<open>$\<close> as \<open>re\<close> does means: a version text with a newline at its end is
  accepted, and the newline is dropped like a suffix.
\<close>

lemma parse_version_final_newline: "parse_version (''1.2.3'' @ [CHR 0x0A]) = Inr (1, 2, 3)"
  by code_simp

text \<open>
  Claim C8. A text that does not match the pattern \<open>^(\d+)\.(\d+)\.(\d+)(-.*)?$\<close> makes
  \<open>parse_version\<close> raise the \<open>ValueError\<close> of an invalid version format; so do
  \<open>"1.2"\<close>, \<open>"a.b.c"\<close> and the empty text.
\<close>

theorem parse_version_rejects:
  "(\<not> spec_semver v \<longrightarrow> parse_version v = Inl (InvalidFormat v)) \<and>
   parse_version ''1.2'' = Inl (InvalidFormat ''1.2'') \<and>
   parse_version ''a.b.c'' = Inl (InvalidFormat ''a.b.c'') \<and>
   parse_version [] = Inl (InvalidFormat [])"
proof -
  have "parse_version v = Inl (InvalidFormat v)" if "\<not> spec_semver v"
  proof (cases "parse_version v")
    case (Inl e)
    then show ?thesis using parse_version_Inl by simp
  next
    case (Inr t)
    obtain a b c where "t = (a, b, c)" by (cases t)
    with Inr parse_version_sound[of v a b c] have "spec_semver v"
      unfolding spec_semver_def by blast
    with that show ?thesis by simp
  qed
  moreover have "parse_version ''1.2'' = Inl (InvalidFormat ''1.2'')" by code_simp
  moreover have "parse_version ''a.b.c'' = Inl (InvalidFormat ''a.b.c'')" by code_simp
  moreover have "parse_version [] = Inl (InvalidFormat [])" by code_simp
  ultimately show ?thesis by blast
qed

theorem parse_version_rejects_witness:
  "\<not> spec_semver ''1.2.x'' \<and> parse_version ''1.2.x'' = Inl (InvalidFormat ''1.2.x'')"
proof -
  have "parse_version ''1.2.x'' = Inl (InvalidFormat ''1.2.x'')" by code_simp
  then have h: "\<not> spec_semver ''1.2.x''" using spec_semver_accepted[of "''1.2.x''"] by auto
  with parse_version_rejects[of "''1.2.x''"] show ?thesis by blast
qed








subsection \<open>The version line of the manifest\<close>



















subsection \<open>Writing the manifest\<close>

text \<open>
  Claim C9. Where the manifest does not exist, \<open>update_version_file\<close> returns normally,
  prints the warning and changes nothing else: no file comes into being, nothing is
  written, no command is run.
\<close>

theorem update_version_file_missing:
  assumes "manifest st = None"
  shows "update_version_file new_version st =
           (Returned (),
            st\<lparr>stdout := stdout st @
               [Line ''Warning: pyproject.toml not found, skipping version update'']\<rparr>) \<and>
         manifest (snd (update_version_file new_version st)) = None \<and>
         writes (snd (update_version_file new_version st)) = writes st \<and>
         world (snd (update_version_file new_version st)) = world st \<and>
         calls (snd (update_version_file new_version st)) = calls st"
  using assms by (simp add: update_version_file_def print_def)

theorem update_version_file_missing_witness:
  "manifest \<lparr>manifest = None, writes = [], environ = Map.empty, world = (), stdout = [],
      calls = []\<rparr> = None \<and>
   update_version_file ''1.3.0''
     \<lparr>manifest = None, writes = [], environ = Map.empty, world = (), stdout = [], calls = []\<rparr> =
     (Returned (),
      \<lparr>manifest = None, writes = [], environ = Map.empty, world = (),
       stdout = [Line ''Warning: pyproject.toml not found, skipping version update''],
       calls = []\<rparr>)"
proof -
  let ?st = "\<lparr>manifest = None, writes = [], environ = Map.empty, world = (), stdout = [],
      calls = []\<rparr> :: unit state"
  have h: "manifest ?st = None" by simp
  from update_version_file_missing[OF h, of "''1.3.0''"] show ?thesis by simp
qed




text \<open>
  Claim C1 says that only the first \<open>version = "..."\<close> is replaced. The call of \<open>re.sub\<close>
  has no \<open>count\<close>, so every match is replaced: in this manifest the setting
  \<open>target-version = "py38"\<close> of another tool is overwritten with the new version too.
\<close>

theorem update_version_file_every_match:
  \<open>update_version_file ''2.0.0''
     \<lparr>manifest = Some (''version = "1.0.0"'' @ [CHR 0x0A] @ ''target-version = "py38"''),
      writes = [], environ = Map.empty, world = (), stdout = [], calls = []\<rparr> =
     (Returned (),
      \<lparr>manifest = Some (''version = "2.0.0"'' @ [CHR 0x0A] @ ''target-version = "2.0.0"''),
       writes = [''version = "2.0.0"'' @ [CHR 0x0A] @ ''target-version = "2.0.0"''],
       environ = Map.empty, world = (),
       stdout = [Line ''Updated version in pyproject.toml to 2.0.0''], calls = []\<rparr>)\<close>
proof -
  have \<open>re_sub version_re (version_key @ ''2.0.0'' @ dquote)
          (''version = "1.0.0"'' @ [CHR 0x0A] @ ''target-version = "py38"'') =
        Inr (''version = "2.0.0"'' @ [CHR 0x0A] @ ''target-version = "2.0.0"'')\<close>
    by code_simp
  then show ?thesis by (simp add: update_version_file_def print_def)
qed


subsection \<open>Image names\<close>

text \<open>
  Claim C5. \<open>get_docker_images_info\<close> is a total function of the environment and the
  version. With \<open>GITHUB_REPOSITORY\<close> set to \<open>repo\<close>, its image entries are exactly
  \<open>ghcr.io/repo:version\<close>, \<open>ghcr.io/repo:latest\<close>, \<open>ghcr.io/repo-web:version\<close> and
  \<open>ghcr.io/repo-web:latest\<close>; with the variable unset, the same for the repository name
  \<open>sip-ai-agent\<close>.
\<close>

theorem get_docker_images_info_images:
  "(env ''GITHUB_REPOSITORY'' = Some repo \<longrightarrow>
      get_docker_images_info env version =
        JObj [(''registry'', JStr ''ghcr.io''), (''repository'', JStr repo),
              (''version'', JStr version),
              (''images'', JObj
                 [(''sip_agent'', JStr (''ghcr.io/'' @ repo @ '':'' @ version)),
                  (''sip_agent_latest'', JStr (''ghcr.io/'' @ repo @ '':latest'')),
                  (''web_ui'', JStr (''ghcr.io/'' @ repo @ ''-web:'' @ version)),
                  (''web_ui_latest'', JStr (''ghcr.io/'' @ repo @ ''-web:latest''))])]) \<and>
   (env ''GITHUB_REPOSITORY'' = None \<longrightarrow>
      get_docker_images_info env version =
        JObj [(''registry'', JStr ''ghcr.io''), (''repository'', JStr ''sip-ai-agent''),
              (''version'', JStr version),
              (''images'', JObj
                 [(''sip_agent'', JStr (''ghcr.io/sip-ai-agent:'' @ version)),
                  (''sip_agent_latest'', JStr ''ghcr.io/sip-ai-agent:latest''),
                  (''web_ui'', JStr (''ghcr.io/sip-ai-agent-web:'' @ version)),
                  (''web_ui_latest'', JStr ''ghcr.io/sip-ai-agent-web:latest'')])])"
  by (simp add: get_docker_images_info_def)

theorem get_docker_images_info_images_witness:
  "[''GITHUB_REPOSITORY'' \<mapsto> ''acme/widgets''] ''GITHUB_REPOSITORY'' = Some ''acme/widgets'' \<and>
   get_docker_images_info [''GITHUB_REPOSITORY'' \<mapsto> ''acme/widgets''] ''1.3.0'' =
     JObj [(''registry'', JStr ''ghcr.io''), (''repository'', JStr ''acme/widgets''),
           (''version'', JStr ''1.3.0''),
           (''images'', JObj
              [(''sip_agent'', JStr ''ghcr.io/acme/widgets:1.3.0''),
               (''sip_agent_latest'', JStr ''ghcr.io/acme/widgets:latest''),
               (''web_ui'', JStr ''ghcr.io/acme/widgets-web:1.3.0''),
               (''web_ui_latest'', JStr ''ghcr.io/acme/widgets-web:latest'')])] \<and>
   (Map.empty :: string \<rightharpoonup> string) ''GITHUB_REPOSITORY'' = None \<and>
   get_docker_images_info Map.empty ''1.3.0'' =
     JObj [(''registry'', JStr ''ghcr.io''), (''repository'', JStr ''sip-ai-agent''),
           (''version'', JStr ''1.3.0''),
           (''images'', JObj
              [(''sip_agent'', JStr ''ghcr.io/sip-ai-agent:1.3.0''),
               (''sip_agent_latest'', JStr ''ghcr.io/sip-ai-agent:latest''),
               (''web_ui'', JStr ''ghcr.io/sip-ai-agent-web:1.3.0''),
               (''web_ui_latest'', JStr ''ghcr.io/sip-ai-agent-web:latest'')])]"
proof -
  have a: "[''GITHUB_REPOSITORY'' \<mapsto> ''acme/widgets''] ''GITHUB_REPOSITORY'' = Some ''acme/widgets''"
    by simp
  have b: "(Map.empty :: string \<rightharpoonup> string) ''GITHUB_REPOSITORY'' = None" by simp
  from a b
    get_docker_images_info_images[of "[''GITHUB_REPOSITORY'' \<mapsto> ''acme/widgets'']"
      "''acme/widgets''" "''1.3.0''"]
    get_docker_images_info_images[of Map.empty "''acme/widgets''" "''1.3.0''"]
  show ?thesis by simp
qed

subsection \<open>Tags\<close>

lemma create_git_tag_list_fails:
  assumes "git [''git'', ''tag'', ''-l'', ''v'' @ version] (world st) = (rc, out, w)" "rc \<noteq> 0"
  shows "create_git_tag git version message st =
     (SysExit 1,
      st\<lparr>world := w,
         stdout := stdout st @ [ErrLine ''Error creating git tag: ''
           (CalledProcessError [''git'', ''tag'', ''-l'', ''v'' @ version] rc)],
         calls := calls st @ [([''git'', ''tag'', ''-l'', ''v'' @ version], rc)]\<rparr>)"
  using assms by (simp add: create_git_tag_def subprocess_run_def print_def Let_def)

lemma create_git_tag_exists:
  assumes "git [''git'', ''tag'', ''-l'', ''v'' @ version] (world st) = (0, out, w)"
    "strip out \<noteq> []"
  shows "create_git_tag git version message st =
     (Returned (),
      st\<lparr>world := w,
         stdout := stdout st @ [Line (''Tag v'' @ version @ '' already exists'')],
         calls := calls st @ [([''git'', ''tag'', ''-l'', ''v'' @ version], 0)]\<rparr>)"
  using assms by (simp add: create_git_tag_def subprocess_run_def print_def Let_def)

lemma create_git_tag_create_fails:
  assumes "git [''git'', ''tag'', ''-l'', ''v'' @ version] (world st) = (0, out, w)"
    "strip out = []"
    "git [''git'', ''tag'', ''-a'', ''v'' @ version, ''-m'', tag_message_of version message] w =
       (rc, out', w')" "rc \<noteq> 0"
  shows "create_git_tag git version message st =
     (SysExit 1,
      st\<lparr>world := w',
         stdout := stdout st @ [ErrLine ''Error creating git tag: ''
           (CalledProcessError
              [''git'', ''tag'', ''-a'', ''v'' @ version, ''-m'', tag_message_of version message] rc)],
         calls := calls st @
           [([''git'', ''tag'', ''-l'', ''v'' @ version], 0),
            ([''git'', ''tag'', ''-a'', ''v'' @ version, ''-m'', tag_message_of version message], rc)]\<rparr>)"
  using assms by (simp add: create_git_tag_def subprocess_run_def print_def Let_def)

lemma create_git_tag_created:
  assumes "git [''git'', ''tag'', ''-l'', ''v'' @ version] (world st) = (0, out, w)"
    "strip out = []"
    "git [''git'', ''tag'', ''-a'', ''v'' @ version, ''-m'', tag_message_of version message] w =
       (0, out', w')"
  shows "create_git_tag git version message st =
     (Returned (),
      st\<lparr>world := w',
         stdout := stdout st @ [Line (''Created tag v'' @ version)],
         calls := calls st @
           [([''git'', ''tag'', ''-l'', ''v'' @ version], 0),
            ([''git'', ''tag'', ''-a'', ''v'' @ version, ''-m'', tag_message_of version message], 0)]\<rparr>)"
  using assms by (simp add: create_git_tag_def subprocess_run_def print_def Let_def)

lemma create_git_tag_calls:
  "\<exists>new. calls (snd (create_git_tag git version message st)) = calls st @ new \<and>
         length (filter is_create new) \<le> 1 \<and>
         (fst (create_git_tag git version message st) = Returned () \<and> (\<forall>c\<in>set new. snd c = 0) \<or>
          fst (create_git_tag git version message st) = SysExit 1 \<and> (\<exists>c\<in>set new. snd c \<noteq> 0))"
proof -
  obtain rc out w where l: "git [''git'', ''tag'', ''-l'', ''v'' @ version] (world st) = (rc, out, w)"
    by (cases "git [''git'', ''tag'', ''-l'', ''v'' @ version] (world st)")
  show ?thesis
  proof (cases "rc = 0")
    case False
    from create_git_tag_list_fails[where git=git and message=message, OF l False] False
    show ?thesis by (simp add: is_create_def)
  next
    case True
    note l0 = l[unfolded True]
    show ?thesis
    proof (cases "strip out = []")
      case False
      from create_git_tag_exists[where git=git and message=message, OF l0 False] show ?thesis
        by (simp add: is_create_def)
    next
      case blank: True
      obtain rc' out' w' where
        c: "git [''git'', ''tag'', ''-a'', ''v'' @ version, ''-m'', tag_message_of version message] w =
              (rc', out', w')"
        by (cases "git [''git'', ''tag'', ''-a'', ''v'' @ version, ''-m'', tag_message_of version message] w")
      show ?thesis
      proof (cases "rc' = 0")
        case False
        from create_git_tag_create_fails[where git=git, OF l0 blank c False] False
        show ?thesis by (simp add: is_create_def)
      next
        case True
        from create_git_tag_created[where git=git, OF l0 blank c[unfolded True]] show ?thesis
          by (simp add: is_create_def)
      qed
    qed
  qed
qed

lemma create_git_tag_reported:
  assumes "reports_tag git (''v'' @ version) (world st)"
  shows "\<exists>rc. calls (snd (create_git_tag git version message st)) =
           calls st @ [([''git'', ''tag'', ''-l'', ''v'' @ version], rc)]"
proof -
  obtain rc out w where l: "git [''git'', ''tag'', ''-l'', ''v'' @ version] (world st) = (rc, out, w)"
    by (cases "git [''git'', ''tag'', ''-l'', ''v'' @ version] (world st)")
  show ?thesis
  proof (cases "rc = 0")
    case False
    from create_git_tag_list_fails[where git=git and message=message, OF l False] show ?thesis by simp
  next
    case True
    with assms l have "strip out \<noteq> []" by (simp add: reports_tag_def)
    from create_git_tag_exists[where git=git and message=message, OF l[unfolded True] this] show ?thesis by simp
  qed
qed

lemma create_git_tag_returned_reports:
  assumes "git_keeps_tags git (''v'' @ version)"
    and "fst (create_git_tag git version message st) = Returned ()"
  shows "reports_tag git (''v'' @ version) (world (snd (create_git_tag git version message st)))"
proof -
  obtain rc out w where l: "git [''git'', ''tag'', ''-l'', ''v'' @ version] (world st) = (rc, out, w)"
    by (cases "git [''git'', ''tag'', ''-l'', ''v'' @ version] (world st)")
  show ?thesis
  proof (cases "rc = 0")
    case False
    from create_git_tag_list_fails[where git=git and message=message, OF l False] assms(2) show ?thesis by simp
  next
    case True
    note l0 = l[unfolded True]
    show ?thesis
    proof (cases "strip out = []")
      case False
      from assms(1) l0 False have "reports_tag git (''v'' @ version) w"
        unfolding git_keeps_tags_def by blast
      with create_git_tag_exists[where git=git and message=message, OF l0 False] show ?thesis by simp
    next
      case blank: True
      obtain rc' out' w' where
        c: "git [''git'', ''tag'', ''-a'', ''v'' @ version, ''-m'', tag_message_of version message] w =
              (rc', out', w')"
        by (cases "git [''git'', ''tag'', ''-a'', ''v'' @ version, ''-m'', tag_message_of version message] w")
      show ?thesis
      proof (cases "rc' = 0")
        case False
        from create_git_tag_create_fails[where git=git, OF l0 blank c False] assms(2) show ?thesis by simp
      next
        case True
        from assms(1) c True have "reports_tag git (''v'' @ version) w'"
          unfolding git_keeps_tags_def by blast
        with create_git_tag_created[where git=git, OF l0 blank c[unfolded True]] show ?thesis by simp
      qed
    qed
  qed
qed

lemma create_git_tag_twice_creates:
  assumes "git_keeps_tags git (''v'' @ version)"
  shows "length (filter is_create
           (new_calls st (snd (create_git_tag_twice git version message message' st)))) \<le> 1"
proof -
  obtain r1 st1 where r1: "create_git_tag git version message st = (r1, st1)"
    by (cases "create_git_tag git version message st")
  from create_git_tag_calls[of git version message st] r1 obtain new1 where
    n1: "calls st1 = calls st @ new1" "length (filter is_create new1) \<le> 1"
    and s1: "r1 = Returned () \<or> r1 = SysExit 1" by auto
  from s1 show ?thesis
  proof
    assume "r1 = SysExit 1"
    with r1 have "create_git_tag_twice git version message message' st = (SysExit 1, st1)"
      by (simp add: create_git_tag_twice_def)
    with n1 show ?thesis by (simp add: new_calls_def)
  next
    assume ret: "r1 = Returned ()"
    with r1 have tw: "create_git_tag_twice git version message message' st =
        create_git_tag git version message' st1"
      by (simp add: create_git_tag_twice_def)
    have "reports_tag git (''v'' @ version) (world st1)"
      using create_git_tag_returned_reports[OF assms, of message st] r1 ret by simp
    from create_git_tag_reported[OF this, of message'] obtain rc where
      "calls (snd (create_git_tag git version message' st1)) =
         calls st1 @ [([''git'', ''tag'', ''-l'', ''v'' @ version], rc)]" by blast
    with tw n1 show ?thesis by (simp add: new_calls_def is_create_def)
  qed
qed

text \<open>
  Claim C6. When the listing of the tag \<open>v{version}\<close> succeeds with an output that is not
  blank, \<open>create_git_tag\<close> prints that the tag exists and returns; the listing is the only
  command it runs. And with a git that lists a tag it has created or listed before, two
  calls of \<open>create_git_tag\<close> in succession for the same version run the creation
  command at most once.
\<close>

theorem create_git_tag_idempotent:
  "(git [''git'', ''tag'', ''-l'', ''v'' @ version] (world st) = (0, out, w) \<and>
    strip out \<noteq> [] \<longrightarrow>
      create_git_tag git version message st =
        (Returned (),
         st\<lparr>world := w,
            stdout := stdout st @ [Line (''Tag v'' @ version @ '' already exists'')],
            calls := calls st @ [([''git'', ''tag'', ''-l'', ''v'' @ version], 0)]\<rparr>)) \<and>
   (git_keeps_tags git (''v'' @ version) \<longrightarrow>
      length (filter is_create
        (new_calls st (snd (create_git_tag_twice git version message message' st)))) \<le> 1)"
  using create_git_tag_exists[of git version st out w message]
    create_git_tag_twice_creates[of git version st message message']
  by blast

lemma strip_eq_Nil: "strip s = [] \<longleftrightarrow> (\<forall>c\<in>set s. is_space c)"
proof -
  have "strip s = [] \<longleftrightarrow> (\<forall>c\<in>set (dropWhile is_space s). is_space c)"
    by (simp add: strip_def dropWhile_eq_Nil_conv)
  also have "\<dots> \<longleftrightarrow> dropWhile is_space s = []"
  proof
    assume a: "\<forall>c\<in>set (dropWhile is_space s). is_space c"
    show "dropWhile is_space s = []"
    proof (rule ccontr)
      assume n: "dropWhile is_space s \<noteq> []"
      then have "\<not> is_space (hd (dropWhile is_space s))" by (rule hd_dropWhile)
      moreover have "hd (dropWhile is_space s) \<in> set (dropWhile is_space s)"
        using n by (rule hd_in_set)
      ultimately show False using a by blast
    qed
  next
    assume "dropWhile is_space s = []"
    then show "\<forall>c\<in>set (dropWhile is_space s). is_space c"
      by (simp only: list.set ball_empty)
  qed
  also have "\<dots> \<longleftrightarrow> (\<forall>c\<in>set s. is_space c)"
    by (simp add: dropWhile_eq_Nil_conv)
  finally show ?thesis .
qed

lemma toy_git_keeps_tags: "git_keeps_tags toy_git (CHR ''v'' # x)"
proof -
  have "\<not> is_space CHR ''v''" by (simp add: is_space_def)
  then have "strip ((CHR ''v'' # x) @ [CHR 0x0A]) \<noteq> []"
    unfolding strip_eq_Nil by auto
  then show ?thesis
    unfolding git_keeps_tags_def reports_tag_def toy_git_def
    by (auto split: if_splits prod.splits)
qed

theorem create_git_tag_idempotent_witness:
  "toy_git [''git'', ''tag'', ''-l'', ''v1.3.0''] ([''v1.3.0''], True) =
     (0, ''v1.3.0'' @ [CHR 0x0A], ([''v1.3.0''], True)) \<and>
   strip (''v1.3.0'' @ [CHR 0x0A]) \<noteq> [] \<and>
   create_git_tag toy_git ''1.3.0'' None
     \<lparr>manifest = None, writes = [], environ = Map.empty, world = ([''v1.3.0''], True), stdout = [],
      calls = []\<rparr> =
     (Returned (),
      \<lparr>manifest = None, writes = [], environ = Map.empty, world = ([''v1.3.0''], True),
       stdout = [Line ''Tag v1.3.0 already exists''],
       calls = [([''git'', ''tag'', ''-l'', ''v1.3.0''], 0)]\<rparr>) \<and>
   git_keeps_tags toy_git ''v1.3.0'' \<and>
   new_calls \<lparr>manifest = None, writes = [], environ = Map.empty, world = ([], True), stdout = [],
      calls = []\<rparr>
     (snd (create_git_tag_twice toy_git ''1.3.0'' None None
       \<lparr>manifest = None, writes = [], environ = Map.empty, world = ([], True), stdout = [],
        calls = []\<rparr>)) =
     [([''git'', ''tag'', ''-l'', ''v1.3.0''], 0),
      ([''git'', ''tag'', ''-a'', ''v1.3.0'', ''-m'', ''Release version 1.3.0''], 0),
      ([''git'', ''tag'', ''-l'', ''v1.3.0''], 0)] \<and>
   length (filter is_create
     (new_calls \<lparr>manifest = None, writes = [], environ = Map.empty, world = ([], True), stdout = [],
        calls = []\<rparr>
       (snd (create_git_tag_twice toy_git ''1.3.0'' None None
         \<lparr>manifest = None, writes = [], environ = Map.empty, world = ([], True), stdout = [],
          calls = []\<rparr>)))) \<le> 1"
proof -
  let ?st1 = "\<lparr>manifest = None, writes = [], environ = Map.empty, world = ([''v1.3.0''], True),
      stdout = [], calls = []\<rparr>"
  let ?st0 = "\<lparr>manifest = None, writes = [], environ = Map.empty, world = ([] :: string list, True),
      stdout = [], calls = []\<rparr>"
  have a: "toy_git [''git'', ''tag'', ''-l'', ''v'' @ ''1.3.0''] (world ?st1) =
     (0, ''v1.3.0'' @ [CHR 0x0A], ([''v1.3.0''], True))"
    by (simp add: toy_git_def)
  have b: "strip (''v1.3.0'' @ [CHR 0x0A]) \<noteq> []"
    by (simp add: strip_def is_space_def)
  have k: "git_keeps_tags toy_git (''v'' @ ''1.3.0'')" using toy_git_keeps_tags[of "''1.3.0''"] by simp
  have t: "new_calls ?st0 (snd (create_git_tag_twice toy_git ''1.3.0'' None None ?st0)) =
     [([''git'', ''tag'', ''-l'', ''v1.3.0''], 0),
      ([''git'', ''tag'', ''-a'', ''v1.3.0'', ''-m'', ''Release version 1.3.0''], 0),
      ([''git'', ''tag'', ''-l'', ''v1.3.0''], 0)]"
    by (simp add: create_git_tag_twice_def create_git_tag_def subprocess_run_def toy_git_def
        tag_message_of_def strip_def is_space_def print_def new_calls_def Let_def)
  from create_git_tag_idempotent[of toy_git "''1.3.0''" ?st1 "''v1.3.0'' @ [CHR 0x0A]"
      "([''v1.3.0''], True)" None None]
    create_git_tag_idempotent[of toy_git "''1.3.0''" ?st0 "[]" "([], True)" None None]
    a b k t
  show ?thesis by simp
qed

subsection \<open>The exit status\<close>










end
